theory Spec2Isabelle
  imports Main
begin

section \<open>Data model\<close>

text \<open>
  The recurring-charge scheduler of \<^verbatim>\<open>app/services/yookassa_recurring_service.py\<close>, the
  accessors of \<^verbatim>\<open>app/database/crud/yookassa_saved_payment_method.py\<close> and the delete route of
  \<^verbatim>\<open>app/cabinet/routes/saved_payment_methods.py\<close>.

  A point in time (an aware \<^verbatim>\<open>datetime\<close> in UTC) is a whole number of seconds, so that
  \<^verbatim>\<open>timedelta(days=d)\<close> is \<open>d * 86400\<close> seconds. Python's integers are unbounded: \<open>int\<close>.
\<close>

type_synonym timestamp = int

text \<open>
  Any Python \<^verbatim>\<open>Exception\<close>: the ones that the accessors and the date arithmetic name, and
  the rest by a label.
\<close>

datatype exn = IntegrityError | MultipleResultsFound | OverflowError | OtherError string

text \<open>
  A \<^verbatim>\<open>datetime\<close> lies between \<^verbatim>\<open>datetime.min\<close> (year 1) and \<^verbatim>\<open>datetime.max\<close> (the end of
  year 9999), here in seconds of UTC since 1970. \<^verbatim>\<open>timedelta(days=d)\<close> raises
  \<^verbatim>\<open>OverflowError\<close> when \<open>d\<close> has a magnitude above 999999999, and subtracting a
  \<^verbatim>\<open>timedelta\<close> from a \<^verbatim>\<open>datetime\<close> raises it when the result leaves the range.
\<close>

definition datetime_min :: timestamp where
  "datetime_min = - 62135596800"

definition datetime_max :: timestamp where
  "datetime_max = 253402300799"

definition timedelta_days :: "int \<Rightarrow> exn + int" where
  "timedelta_days d =
     (if - 999999999 \<le> d \<and> d \<le> 999999999 then Inr (d * 86400) else Inl OverflowError)"

definition datetime_sub :: "timestamp \<Rightarrow> int \<Rightarrow> exn + timestamp" where
  "datetime_sub t delta =
     (if datetime_min \<le> t - delta \<and> t - delta \<le> datetime_max then Inr (t - delta)
      else Inl OverflowError)"

text \<open>The part of \<^verbatim>\<open>User\<close> that the scheduler reads: \<^verbatim>\<open>id\<close> and \<^verbatim>\<open>telegram_id\<close>.\<close>

record user =
  u_id :: int
  telegram_id :: "int option"

text \<open>
  The part of \<^verbatim>\<open>Subscription\<close> that the scheduler reads. \<open>s_user\<close> is the relationship
  \<^verbatim>\<open>subscription.user\<close> (loaded with the row), \<open>None\<close> when it does not resolve.
\<close>

record subscription =
  s_id :: int
  s_user :: "user option"
  status :: string
  autopay_enabled :: bool
  expires_at :: "timestamp option"
  autopay_days_before :: "int option"
  tariff_id :: "int option"

text \<open>
  Modelled from the spec: the enumeration \<^verbatim>\<open>SubscriptionStatus\<close> is declared in
  \<^verbatim>\<open>app.database.models\<close>, which is not among the sources; the spec names its members
  pending, active, expired, cancelled.
\<close>

definition SubscriptionStatus_ACTIVE :: string where
  "SubscriptionStatus_ACTIVE = ''active''"

text \<open>A row of \<^verbatim>\<open>yookassa_saved_payment_methods\<close> (columns as the migration creates them).\<close>

record saved_method =
  m_id :: int
  user_id :: int
  payment_method_id :: string
  payment_method_type :: "string option"
  card_first_six :: "string option"
  card_last_four :: "string option"
  card_type :: "string option"
  card_expiry_month :: "string option"
  card_expiry_year :: "string option"
  title :: "string option"
  is_active :: bool
  created_at :: timestamp
  updated_at :: timestamp
  source_payment_id :: "int option"

text \<open>
  The database as the code sees it: the two tables it reads and writes, the keys of the two
  tables that the foreign keys of a saved method point to, and the autoincrement counter.
\<close>

record database =
  subscriptions :: "subscription list"
  saved_methods :: "saved_method list"
  users_ids :: "int list"
  yookassa_payments_ids :: "int list"
  next_method_id :: int

section \<open>Python truthiness\<close>

text \<open>\<^verbatim>\<open>x or d\<close> on an optional integer: \<open>None\<close> and \<open>0\<close> are both falsy.\<close>

fun truthy :: "int option \<Rightarrow> bool" where
  "truthy None = False"
| "truthy (Some n) = (n \<noteq> 0)"

fun py_or :: "int option \<Rightarrow> int \<Rightarrow> int" where
  "py_or None d = d"
| "py_or (Some n) d = (if n \<noteq> 0 then n else d)"

section \<open>The eligibility selector\<close>

text \<open>
  A call through the session can raise (a lost connection, a failed statement). The
  environment says which statement raises; \<open>session_execute\<close> gives the rows otherwise.
\<close>

datatype query = SelectSubscriptions | SelectActiveMethods int

text \<open>The \<^verbatim>\<open>WHERE\<close> clause of the statement in \<^verbatim>\<open>_get_subscriptions_for_recurring\<close>.\<close>

definition select_autopay_subscriptions :: "database \<Rightarrow> subscription list" where
  "select_autopay_subscriptions db =
     filter (\<lambda>s. status s = SubscriptionStatus_ACTIVE \<and> autopay_enabled s \<and> expires_at s \<noteq> None)
       (subscriptions db)"

text \<open>
  The loop over \<^verbatim>\<open>all_subscriptions\<close>. A \<^verbatim>\<open>datetime\<close> is always truthy, so
  \<^verbatim>\<open>if not sub.expires_at\<close> skips exactly the rows without one. The subtraction stands in no
  \<^verbatim>\<open>try\<close>: its \<^verbatim>\<open>OverflowError\<close> ends the loop and leaves the function.
\<close>

fun filter_eligible :: "timestamp \<Rightarrow> subscription list \<Rightarrow> exn + subscription list" where
  "filter_eligible now [] = Inr []"
| "filter_eligible now (sub # rest) =
     (case expires_at sub of
        None \<Rightarrow> filter_eligible now rest
      | Some e \<Rightarrow>
          (let days_before = py_or (autopay_days_before sub) 3 in
           case timedelta_days days_before of
             Inl err \<Rightarrow> Inl err
           | Inr delta \<Rightarrow>
               (case datetime_sub e delta of
                  Inl err \<Rightarrow> Inl err
                | Inr threshold \<Rightarrow>
                    (case filter_eligible now rest of
                       Inl err \<Rightarrow> Inl err
                     | Inr eligible \<Rightarrow>
                         Inr (if now \<ge> threshold then sub # eligible else eligible)))))"

definition session_execute :: "(query \<Rightarrow> exn option) \<Rightarrow> query \<Rightarrow> 'a \<Rightarrow> exn + 'a" where
  "session_execute fault q rows = (case fault q of Some e \<Rightarrow> Inl e | None \<Rightarrow> Inr rows)"

definition get_subscriptions_for_recurring ::
  "(query \<Rightarrow> exn option) \<Rightarrow> database \<Rightarrow> timestamp \<Rightarrow> exn + subscription list" where
  "get_subscriptions_for_recurring fault db now =
     (case session_execute fault SelectSubscriptions (select_autopay_subscriptions db) of
        Inl e \<Rightarrow> Inl e
      | Inr all_subscriptions \<Rightarrow> filter_eligible now all_subscriptions)"

section \<open>The instrument resolver and the other accessors\<close>

text \<open>
  \<^verbatim>\<open>get_active_saved_methods\<close>: the user's active rows, newest first. The statement orders
  by \<^verbatim>\<open>created_at\<close> descending and says nothing about rows created at the same time; the
  model keeps those in table order (a stable sort on the negated time).
\<close>

definition get_active_saved_methods :: "database \<Rightarrow> int \<Rightarrow> saved_method list" where
  "get_active_saved_methods db uid =
     sort_key (\<lambda>m. - created_at m)
       (filter (\<lambda>m. user_id m = uid \<and> is_active m) (saved_methods db))"

text \<open>
  \<^verbatim>\<open>get_saved_method_by_payment_method_id\<close> ends in \<^verbatim>\<open>scalar_one_or_none()\<close>: no row is
  \<open>None\<close>, one row is that row, more than one raises.
\<close>

definition get_saved_method_by_payment_method_id ::
  "database \<Rightarrow> string \<Rightarrow> exn + saved_method option" where
  "get_saved_method_by_payment_method_id db pmid =
     (case filter (\<lambda>m. payment_method_id m = pmid) (saved_methods db) of
        [] \<Rightarrow> Inr None
      | [m] \<Rightarrow> Inr (Some m)
      | _ \<Rightarrow> Inl MultipleResultsFound)"

text \<open>
  The constraints that the migration declares on the table and that a commit of a new row
  checks: the unique token, and the two foreign keys. A violation is an
  \<^verbatim>\<open>IntegrityError\<close>.
\<close>

definition violates_constraints :: "database \<Rightarrow> saved_method \<Rightarrow> bool" where
  "violates_constraints db row \<longleftrightarrow>
     payment_method_id row \<in> set (map payment_method_id (saved_methods db)) \<or>
     user_id row \<notin> set (users_ids db) \<or>
     (case source_payment_id row of None \<Rightarrow> False | Some p \<Rightarrow> p \<notin> set (yookassa_payments_ids db))"

text \<open>
  \<^verbatim>\<open>create_saved_payment_method\<close>. The arguments arrive as a row whose \<open>m_id\<close>,
  \<open>is_active\<close>, \<open>created_at\<close> and \<open>updated_at\<close> the function and the server defaults
  overwrite. After a rollback the table is as before.
\<close>

definition create_saved_payment_method ::
  "timestamp \<Rightarrow> saved_method \<Rightarrow> database \<Rightarrow> (exn + saved_method option) \<times> database" where
  "create_saved_payment_method now args db =
     (let method = args\<lparr>m_id := next_method_id db, is_active := True,
                         created_at := now, updated_at := now\<rparr>
      in if violates_constraints db method
         then (get_saved_method_by_payment_method_id db (payment_method_id args), db)
         else (Inr (Some method),
               db\<lparr>saved_methods := saved_methods db @ [method],
                   next_method_id := next_method_id db + 1\<rparr>))"

definition deactivate_saved_method :: "timestamp \<Rightarrow> int \<Rightarrow> database \<Rightarrow> database" where
  "deactivate_saved_method now method_id db =
     db\<lparr>saved_methods :=
          map (\<lambda>m. if m_id m = method_id then m\<lparr>is_active := False, updated_at := now\<rparr> else m)
            (saved_methods db)\<rparr>"

definition deactivate_all_user_methods :: "timestamp \<Rightarrow> int \<Rightarrow> database \<Rightarrow> database" where
  "deactivate_all_user_methods now uid db =
     db\<lparr>saved_methods :=
          map (\<lambda>m. if user_id m = uid \<and> is_active m
                    then m\<lparr>is_active := False, updated_at := now\<rparr> else m)
            (saved_methods db)\<rparr>"

section \<open>The delete route\<close>

datatype http_error = HTTPException nat string

record delete_response =
  success :: bool
  message :: string

text \<open>
  \<^verbatim>\<open>delete_saved_payment_method\<close>: \<^verbatim>\<open>next((m for m in methods if m.id == method_id), None)\<close>
  is \<open>find\<close>.
\<close>

definition delete_saved_payment_method ::
  "timestamp \<Rightarrow> user \<Rightarrow> int \<Rightarrow> database \<Rightarrow> (http_error + delete_response) \<times> database" where
  "delete_saved_payment_method now usr method_id db =
     (let methods = get_active_saved_methods db (u_id usr) in
      case find (\<lambda>m. m_id m = method_id) methods of
        None \<Rightarrow> (Inl (HTTPException 404 ''Saved payment method not found''), db)
      | Some method \<Rightarrow>
          (Inr \<lparr>success = True, message = ''Payment method successfully unlinked''\<rparr>,
           deactivate_saved_method now method_id db))"

section \<open>The scheduler's collaborators\<close>

text \<open>The arguments of one call of \<^verbatim>\<open>PaymentService.create_recurring_charge\<close>.\<close>

record charge_request =
  req_user_id :: int
  saved_method_id :: int
  amount_kopeks :: int
  description :: string
  metadata :: "(string \<times> string) list"

text \<open>The three texts that the service sends, with the amount they quote.\<close>

datatype notification = RecurringSuccess int | RecurringFailure int | NoPaymentMethod

record stats =
  checked :: nat
  charged :: nat
  no_method :: nat
  failed :: nat
  skipped :: nat

text \<open>The result of the charge: \<^verbatim>\<open>None\<close> or a dictionary, here an association list.\<close>

type_synonym charge_result = "(string \<times> string) list option"

datatype log_entry =
    NoSubscriptionsFound
  | SubscriptionsFound nat
  | SubscriptionError int exn
  | PassError exn
  | PassResults stats
  | UserNotFound int
  | NoSavedMethods int int
  | CostUnknown int
  | CostError exn
  | ChargeSucceeded int int int
  | ChargeFailed int int charge_result
  | NotifyError notification exn

text \<open>
  What one pass does to the outside, in order: a call of the charge executor, a call of
  \<^verbatim>\<open>bot.send_message\<close> (chat and text), a line of the log.
\<close>

datatype event = Charge charge_request | SendMessage int notification | Log log_entry

text \<open>
  The collaborators that are not among the sources, as parameters: whether a bot is set,
  which statements the session fails, the tariff lookup (\<open>None\<close>: no such tariff; the
  price of a tariff may be absent), the configured period price, the description text,
  the \<^verbatim>\<open>str\<close> of an integer, the charge executor (it may raise, and it may write to the
  database) and the bot's \<^verbatim>\<open>send_message\<close> (it may raise).
\<close>

record env =
  has_bot :: bool
  db_fault :: "query \<Rightarrow> exn option"
  get_tariff_by_id :: "int \<Rightarrow> exn + int option option"
  get_period_price_kopeks :: "int \<Rightarrow> exn + int option"
  get_subscription_payment_description :: "int \<Rightarrow> string"
  str :: "int \<Rightarrow> string"
  create_recurring_charge :: "database \<Rightarrow> charge_request \<Rightarrow> (exn + charge_result) \<times> database"
  send_message :: "int \<Rightarrow> notification \<Rightarrow> exn option"

section \<open>The notifier\<close>

text \<open>The \<^verbatim>\<open>try\<close> around \<^verbatim>\<open>send_message\<close>: an exception is logged and goes no further.\<close>

definition try_send_message :: "env \<Rightarrow> int \<Rightarrow> notification \<Rightarrow> event list \<Rightarrow> event list" where
  "try_send_message env chat_id text tr =
     (case send_message env chat_id text of
        None \<Rightarrow> tr @ [SendMessage chat_id text]
      | Some e \<Rightarrow> tr @ [SendMessage chat_id text, Log (NotifyError text e)])"

definition notify_recurring_success :: "env \<Rightarrow> user \<Rightarrow> int \<Rightarrow> event list \<Rightarrow> event list" where
  "notify_recurring_success env usr amount tr =
     (if \<not> has_bot env \<or> \<not> truthy (telegram_id usr) then tr
      else try_send_message env (the (telegram_id usr)) (RecurringSuccess amount) tr)"

definition notify_recurring_failure :: "env \<Rightarrow> user \<Rightarrow> int \<Rightarrow> event list \<Rightarrow> event list" where
  "notify_recurring_failure env usr amount tr =
     (if \<not> has_bot env \<or> \<not> truthy (telegram_id usr) then tr
      else try_send_message env (the (telegram_id usr)) (RecurringFailure amount) tr)"

definition notify_no_payment_method :: "env \<Rightarrow> user \<Rightarrow> event list \<Rightarrow> event list" where
  "notify_no_payment_method env usr tr =
     (if \<not> has_bot env \<or> \<not> truthy (telegram_id usr) then tr
      else try_send_message env (the (telegram_id usr)) NoPaymentMethod tr)"

section \<open>The price calculator\<close>

text \<open>
  \<^verbatim>\<open>_calculate_renewal_cost\<close>. The whole body stands in a \<^verbatim>\<open>try\<close>: an exception of either
  lookup is logged and the result is \<open>None\<close>. A tariff that is found decides the price,
  whatever it is.
\<close>

definition calculate_renewal_cost ::
  "env \<Rightarrow> subscription \<Rightarrow> event list \<Rightarrow> int option \<times> event list" where
  "calculate_renewal_cost env subscription tr =
     (let period_days = 30;
          tariff = (if truthy (tariff_id subscription)
                    then get_tariff_by_id env (the (tariff_id subscription))
                    else Inr None)
      in case tariff of
           Inl e \<Rightarrow> (None, tr @ [Log (CostError e)])
         | Inr (Some price_kopeks) \<Rightarrow> (price_kopeks, tr)
         | Inr None \<Rightarrow>
             (case get_period_price_kopeks env period_days of
                Inl e \<Rightarrow> (None, tr @ [Log (CostError e)])
              | Inr price \<Rightarrow> (if truthy price \<and> the price > 0 then price else None, tr)))"

section \<open>The recurring scheduler\<close>

text \<open>The arguments that \<^verbatim>\<open>_process_single_recurring\<close> builds for the charge executor.\<close>

definition recurring_request ::
  "env \<Rightarrow> subscription \<Rightarrow> user \<Rightarrow> saved_method \<Rightarrow> int \<Rightarrow> charge_request" where
  "recurring_request env subscription usr saved_method amount =
     \<lparr>req_user_id = u_id usr,
      saved_method_id = m_id saved_method,
      amount_kopeks = amount,
      description = get_subscription_payment_description env amount,
      metadata =
        [(''type'', ''recurring_renewal''),
         (''subscription_id'', str env (s_id subscription)),
         (''user_id'', str env (u_id usr)),
         (''user_telegram_id'',
            if truthy (telegram_id usr) then str env (the (telegram_id usr)) else [])]\<rparr>"

text \<open>
  \<^verbatim>\<open>result and result.get('status') == 'succeeded'\<close>: \<^verbatim>\<open>None\<close> and the empty dictionary
  are falsy.
\<close>

definition charge_succeeded :: "charge_result \<Rightarrow> bool" where
  "charge_succeeded result =
     (case result of
        None \<Rightarrow> False
      | Some d \<Rightarrow> d \<noteq> [] \<and> map_of d ''status'' = Some ''succeeded'')"

text \<open>
  \<^verbatim>\<open>_process_single_recurring\<close>. The result is the outcome string, or the exception that
  leaves the function: the one of the query for the saved methods, or the one of the charge
  executor (no \<^verbatim>\<open>try\<close> stands around either call). Every call of the executor is written
  to the trace before its answer is looked at.
\<close>

definition process_single_recurring ::
  "env \<Rightarrow> database \<Rightarrow> subscription \<Rightarrow> event list \<Rightarrow> (exn + string) \<times> database \<times> event list" where
  "process_single_recurring env db subscription tr =
     (case s_user subscription of
        None \<Rightarrow> (Inr ''skipped'', db, tr @ [Log (UserNotFound (s_id subscription))])
      | Some usr \<Rightarrow>
          (case session_execute (db_fault env) (SelectActiveMethods (u_id usr))
                  (get_active_saved_methods db (u_id usr)) of
             Inl e \<Rightarrow> (Inl e, db, tr)
           | Inr [] \<Rightarrow>
               (Inr ''no_method'', db,
                notify_no_payment_method env usr
                  (tr @ [Log (NoSavedMethods (u_id usr) (s_id subscription))]))
           | Inr (saved_method # _) \<Rightarrow>
               (case calculate_renewal_cost env subscription tr of
                  (amount, tr1) \<Rightarrow>
                    if \<not> truthy amount \<or> the amount \<le> 0
                    then (Inr ''skipped'', db, tr1 @ [Log (CostUnknown (s_id subscription))])
                    else
                      (let request = recurring_request env subscription usr saved_method (the amount)
                       in case create_recurring_charge env db request of
                            (Inl e, db') \<Rightarrow> (Inl e, db', tr1 @ [Charge request])
                          | (Inr result, db') \<Rightarrow>
                              if charge_succeeded result
                              then (Inr ''charged'', db',
                                    notify_recurring_success env usr (the amount)
                                      (tr1 @ [Charge request,
                                              Log (ChargeSucceeded (u_id usr) (s_id subscription)
                                                     (the amount))]))
                              else (Inr ''failed'', db',
                                    notify_recurring_failure env usr (the amount)
                                      (tr1 @ [Charge request,
                                              Log (ChargeFailed (u_id usr) (s_id subscription)
                                                     result)]))))))"

text \<open>The \<^verbatim>\<open>if\<close>/\<^verbatim>\<open>elif\<close> chain that counts one outcome.\<close>

definition count_result :: "string \<Rightarrow> stats \<Rightarrow> stats" where
  "count_result result st =
     (if result = ''charged'' then st\<lparr>charged := charged st + 1\<rparr>
      else if result = ''no_method'' then st\<lparr>no_method := no_method st + 1\<rparr>
      else if result = ''failed'' then st\<lparr>failed := failed st + 1\<rparr>
      else st\<lparr>skipped := skipped st + 1\<rparr>)"

text \<open>
  The \<^verbatim>\<open>for\<close> loop of \<^verbatim>\<open>process_recurring_charges\<close>, with its \<^verbatim>\<open>try\<close> around each
  subscription: an exception counts as failed, is logged, and the loop goes on.
\<close>

fun charge_loop ::
  "env \<Rightarrow> subscription list \<Rightarrow> stats \<Rightarrow> database \<Rightarrow> event list \<Rightarrow> stats \<times> database \<times> event list" where
  "charge_loop env [] st db tr = (st, db, tr)"
| "charge_loop env (subscription # rest) st db tr =
     (case process_single_recurring env db subscription tr of
        (Inr result, db', tr') \<Rightarrow> charge_loop env rest (count_result result st) db' tr'
      | (Inl e, db', tr') \<Rightarrow>
          charge_loop env rest (st\<lparr>failed := failed st + 1\<rparr>) db'
            (tr' @ [Log (SubscriptionError (s_id subscription) e)]))"

definition log_results :: "stats \<Rightarrow> event list \<Rightarrow> event list" where
  "log_results st tr = (if charged st > 0 \<or> failed st > 0 then tr @ [Log (PassResults st)] else tr)"

text \<open>
  \<^verbatim>\<open>process_recurring_charges\<close>: one pass. The outer \<^verbatim>\<open>try\<close> catches the exception of the
  selector; the loop lets none out. The pass with nothing to do returns before the summary
  line.
\<close>

definition process_recurring_charges ::
  "env \<Rightarrow> timestamp \<Rightarrow> database \<Rightarrow> event list \<Rightarrow> stats \<times> database \<times> event list" where
  "process_recurring_charges env now db tr =
     (let st = \<lparr>checked = 0, charged = 0, no_method = 0, failed = 0, skipped = 0\<rparr>
      in case get_subscriptions_for_recurring (db_fault env) db now of
           Inl e \<Rightarrow> (st, db, log_results st (tr @ [Log (PassError e)]))
         | Inr subs \<Rightarrow>
             (let st1 = st\<lparr>checked := length subs\<rparr>
              in if subs = [] then (st1, db, tr @ [Log NoSubscriptionsFound])
                 else (case charge_loop env subs st1 db
                              (tr @ [Log (SubscriptionsFound (length subs))]) of
                         (st2, db', tr') \<Rightarrow> (st2, db', log_results st2 tr'))))"

text \<open>What a trace says was sent, and which charges it says were asked for.\<close>

fun sent :: "event list \<Rightarrow> (int \<times> notification) list" where
  "sent [] = []"
| "sent (SendMessage chat_id text # tr) = (chat_id, text) # sent tr"
| "sent (_ # tr) = sent tr"

fun charges :: "event list \<Rightarrow> charge_request list" where
  "charges [] = []"
| "charges (Charge request # tr) = request # charges tr"
| "charges (_ # tr) = charges tr"

text \<open>The number of subscriptions that a statistics record says have an outcome.\<close>

definition outcomes :: "stats \<Rightarrow> nat" where
  "outcomes st = charged st + no_method st + failed st + skipped st"

section \<open>Concrete inputs\<close>

text \<open>
  Four users: alice has a chat and two active cards, bob has no chat and one card that is
  switched off, carol has no chat and one active card, dave has a chat and no card. Each
  has one active subscription with autopay that expires at second 1000000.
\<close>

definition alice :: user where
  "alice = \<lparr>u_id = 7, telegram_id = Some 7001\<rparr>"

definition bob :: user where
  "bob = \<lparr>u_id = 8, telegram_id = None\<rparr>"

definition carol :: user where
  "carol = \<lparr>u_id = 9, telegram_id = None\<rparr>"

definition dave :: user where
  "dave = \<lparr>u_id = 10, telegram_id = Some 7010\<rparr>"

definition subscription_of :: "int \<Rightarrow> user \<Rightarrow> int option \<Rightarrow> subscription" where
  "subscription_of n usr lead =
     \<lparr>s_id = n, s_user = Some usr, status = ''active'', autopay_enabled = True,
      expires_at = Some 1000000, autopay_days_before = lead, tariff_id = None\<rparr>"

definition card :: "int \<Rightarrow> int \<Rightarrow> string \<Rightarrow> bool \<Rightarrow> timestamp \<Rightarrow> saved_method" where
  "card n uid token active t =
     \<lparr>m_id = n, user_id = uid, payment_method_id = token, payment_method_type = Some ''bank_card'',
      card_first_six = None, card_last_four = Some ''4242'', card_type = Some ''Visa'',
      card_expiry_month = Some ''12'', card_expiry_year = Some ''2030'', title = None,
      is_active = active, created_at = t, updated_at = t, source_payment_id = None\<rparr>"

definition shop :: database where
  "shop =
     \<lparr>subscriptions = [subscription_of 1 alice (Some 5), subscription_of 2 bob None,
                       subscription_of 3 carol None, subscription_of 4 dave (Some 0)],
      saved_methods = [card 1 7 ''pm-old'' True 100, card 2 7 ''pm-new'' True 200,
                       card 3 8 ''pm-bob'' False 150, card 4 9 ''pm-carol'' True 120],
      users_ids = [7, 8, 9, 10], yookassa_payments_ids = [], next_method_id = 5\<rparr>"

text \<open>
  Five environments: every charge succeeds; every charge raises; every charge returns no
  result; the query for the subscriptions raises; no period price is configured.
\<close>

definition gateway_ok :: env where
  "gateway_ok =
     \<lparr>has_bot = True, db_fault = (\<lambda>q. None), get_tariff_by_id = (\<lambda>t. Inr None),
      get_period_price_kopeks = (\<lambda>d. Inr (Some 19900)),
      get_subscription_payment_description = (\<lambda>a. ''renewal''), str = (\<lambda>n. ''n''),
      create_recurring_charge = (\<lambda>db request. (Inr (Some [(''status'', ''succeeded'')]), db)),
      send_message = (\<lambda>chat_id text. None)\<rparr>"

definition gateway_down :: env where
  "gateway_down =
     gateway_ok\<lparr>create_recurring_charge := (\<lambda>db request. (Inl (OtherError ''gateway''), db))\<rparr>"

definition gateway_declined :: env where
  "gateway_declined =
     gateway_ok\<lparr>create_recurring_charge := (\<lambda>db request. (Inr None, db))\<rparr>"

definition database_down :: env where
  "database_down =
     gateway_ok\<lparr>db_fault := (\<lambda>q. if q = SelectSubscriptions
                                   then Some (OtherError ''connection'') else None)\<rparr>"

definition price_unknown :: env where
  "price_unknown = gateway_ok\<lparr>get_period_price_kopeks := (\<lambda>d. Inr None)\<rparr>"

section \<open>Auxiliary facts\<close>

lemmas example_defs =
  alice_def bob_def carol_def dave_def subscription_of_def card_def shop_def gateway_ok_def
  gateway_down_def gateway_declined_def database_down_def price_unknown_def

lemmas scheduler_defs =
  process_recurring_charges_def get_subscriptions_for_recurring_def session_execute_def
  select_autopay_subscriptions_def SubscriptionStatus_ACTIVE_def timedelta_days_def Let_def
  datetime_sub_def datetime_min_def datetime_max_def
  process_single_recurring_def get_active_saved_methods_def calculate_renewal_cost_def
  recurring_request_def count_result_def charge_succeeded_def log_results_def
  notify_no_payment_method_def notify_recurring_success_def notify_recurring_failure_def
  try_send_message_def

text \<open>
  When the loop of the selector returns, it has kept the rows whose threshold has passed;
  it returns when every lead time and every threshold is in range.
\<close>

lemma filter_eligible_mem:
  "filter_eligible now subs = Inr selected \<Longrightarrow>
     sub \<in> set selected \<longleftrightarrow>
       sub \<in> set subs \<and>
       (\<exists>e. expires_at sub = Some e \<and> now \<ge> e - 86400 * py_or (autopay_days_before sub) 3)"
proof (induction subs arbitrary: selected)
  case Nil
  then show ?case by simp
next
  case (Cons s subs)
  show ?case
  proof (cases "expires_at s")
    case None
    with Cons show ?thesis by auto
  next
    case (Some e)
    with Cons.prems obtain eligible where
      rest: "filter_eligible now subs = Inr eligible"
      and sel: "selected = (if now \<ge> e - 86400 * py_or (autopay_days_before s) 3
                            then s # eligible else eligible)"
      by (auto simp: Let_def timedelta_days_def datetime_sub_def mult.commute
          split: sum.splits if_splits)
    from Cons.IH [OF rest] sel Some show ?thesis by auto
  qed
qed

lemma filter_eligible_returns:
  assumes "\<forall>s\<in>set subs. \<forall>e. expires_at s = Some e \<longrightarrow>
             - 999999999 \<le> py_or (autopay_days_before s) 3 \<and>
             py_or (autopay_days_before s) 3 \<le> 999999999 \<and>
             datetime_min \<le> e - 86400 * py_or (autopay_days_before s) 3 \<and>
             e - 86400 * py_or (autopay_days_before s) 3 \<le> datetime_max"
  shows "\<exists>selected. filter_eligible now subs = Inr selected"
  using assms
proof (induction subs)
  case Nil
  then show ?case by simp
next
  case (Cons s subs)
  then obtain eligible where rest: "filter_eligible now subs = Inr eligible"
    by auto
  show ?case
  proof (cases "expires_at s")
    case None
    with rest show ?thesis by simp
  next
    case (Some e)
    with Cons.prems have
      "- 999999999 \<le> py_or (autopay_days_before s) 3"
      "py_or (autopay_days_before s) 3 \<le> 999999999"
      "datetime_min \<le> e - 86400 * py_or (autopay_days_before s) 3"
      "e - 86400 * py_or (autopay_days_before s) 3 \<le> datetime_max"
      by auto
    with Some rest show ?thesis
      by (simp add: Let_def timedelta_days_def datetime_sub_def mult.commute)
  qed
qed

lemma sent_append: "sent (xs @ ys) = sent xs @ sent ys"
  by (induction xs rule: sent.induct) auto

lemma charges_append: "charges (xs @ ys) = charges xs @ charges ys"
  by (induction xs rule: charges.induct) auto

text \<open>The price calculator only writes to the log.\<close>

lemma calculate_renewal_cost_trace:
  "calculate_renewal_cost env sub tr = (a, tr1) \<Longrightarrow> sent tr1 = sent tr \<and> charges tr1 = charges tr"
  by (auto simp: calculate_renewal_cost_def Let_def sent_append charges_append
      split: sum.splits option.splits if_splits)

lemma count_result_outcomes:
  "outcomes (count_result r st) = Suc (outcomes st) \<and> checked (count_result r st) = checked st"
  by (simp add: count_result_def outcomes_def)

text \<open>Each turn of the loop adds one to exactly one outcome counter, whatever happens in it.\<close>

lemma charge_loop_counters:
  "charge_loop env subs st db tr = (st', db', tr') \<Longrightarrow>
     checked st' = checked st \<and> outcomes st' = outcomes st + length subs"
proof (induction subs arbitrary: st db tr)
  case Nil
  then show ?case by simp
next
  case (Cons s subs)
  obtain r d1 t1 where step: "process_single_recurring env db s tr = (r, d1, t1)"
    by (cases "process_single_recurring env db s tr") auto
  show ?case
  proof (cases r)
    case (Inl e)
    with Cons.prems step
    have "charge_loop env subs (st\<lparr>failed := failed st + 1\<rparr>) d1
            (t1 @ [Log (SubscriptionError (s_id s) e)]) = (st', db', tr')"
      by simp
    from Cons.IH [OF this] show ?thesis by (simp add: outcomes_def)
  next
    case (Inr res)
    with Cons.prems step
    have "charge_loop env subs (count_result res st) d1 t1 = (st', db', tr')"
      by simp
    from Cons.IH [OF this] show ?thesis by (simp add: count_result_outcomes)
  qed
qed

lemma set_get_active_saved_methods:
  "set (get_active_saved_methods db uid) = {m \<in> set (saved_methods db). user_id m = uid \<and> is_active m}"
  by (auto simp: get_active_saved_methods_def)

lemma get_active_saved_methods_empty:
  "get_active_saved_methods db uid = [] \<longleftrightarrow>
     \<not> (\<exists>m\<in>set (saved_methods db). user_id m = uid \<and> is_active m)"
proof -
  have "get_active_saved_methods db uid = [] \<longleftrightarrow> set (get_active_saved_methods db uid) = {}"
    by simp
  then show ?thesis
    unfolding set_get_active_saved_methods by blast
qed

lemma get_active_saved_methods_sorted:
  "sorted_wrt (\<lambda>a b. created_at a \<ge> created_at b) (get_active_saved_methods db uid)"
proof -
  have "sorted (map (\<lambda>m. - created_at m) (get_active_saved_methods db uid))"
    by (simp add: get_active_saved_methods_def)
  then show ?thesis
    by (simp add: sorted_map sorted_wrt_iff_nth_less)
qed

text \<open>An active instrument that is strictly newer than the user's other ones comes first.\<close>

lemma newest_is_first:
  assumes "newest \<in> set (saved_methods db)" and "user_id newest = uid" and "is_active newest"
    and "\<forall>m\<in>set (saved_methods db).
           user_id m = uid \<and> is_active m \<and> m \<noteq> newest \<longrightarrow> created_at m < created_at newest"
  shows "\<exists>older. get_active_saved_methods db uid = newest # older"
proof -
  let ?xs = "get_active_saved_methods db uid"
  have mem: "newest \<in> set ?xs"
    using assms(1-3) by (simp add: set_get_active_saved_methods)
  then obtain h t where xs: "?xs = h # t"
    by (cases ?xs) auto
  have "h = newest"
  proof (rule ccontr)
    assume neq: "h \<noteq> newest"
    have "h \<in> set ?xs" using xs by simp
    then have "h \<in> set (saved_methods db)" "user_id h = uid" "is_active h"
      by (simp_all add: set_get_active_saved_methods)
    with assms(4) neq have older: "created_at h < created_at newest" by blast
    from mem xs neq have "newest \<in> set t" by auto
    moreover have "sorted_wrt (\<lambda>a b. created_at a \<ge> created_at b) (h # t)"
      using get_active_saved_methods_sorted [of db uid] xs by simp
    ultimately have "created_at newest \<le> created_at h" by auto
    with older show False by simp
  qed
  with xs show ?thesis by simp
qed

text \<open>In a table whose key \<open>f\<close> is unique, the rows with the key of a row are that row.\<close>

lemma filter_unique_key:
  "distinct (map f xs) \<Longrightarrow> x \<in> set xs \<Longrightarrow> filter (\<lambda>m. f m = f x) xs = [x]"
proof (induction xs)
  case Nil
  then show ?case by simp
next
  case (Cons y ys)
  show ?case
  proof (cases "x = y")
    case True
    with Cons.prems have "f x \<notin> f ` set ys" by simp
    then have "\<forall>m\<in>set ys. f m \<noteq> f x"
      by (metis imageI)
    then have "filter (\<lambda>m. f m = f x) ys = []"
      by (simp add: filter_empty_conv)
    with True show ?thesis by simp
  next
    case False
    with Cons.prems have "x \<in> set ys" "f y \<noteq> f x" by auto
    with Cons show ?thesis by simp
  qed
qed

lemma filter_map_unchanged:
  "(\<And>x. x \<in> set xs \<Longrightarrow> P (g x) = P x) \<Longrightarrow> (\<And>x. x \<in> set xs \<Longrightarrow> P x \<Longrightarrow> g x = x) \<Longrightarrow>
     filter P (map g xs) = filter P xs"
  by (induction xs) auto

lemma deactivate_saved_method_tokens:
  "map payment_method_id (saved_methods (deactivate_saved_method now mid db)) =
     map payment_method_id (saved_methods db)"
  by (simp add: deactivate_saved_method_def comp_def)

lemma deactivate_all_user_methods_tokens:
  "map payment_method_id (saved_methods (deactivate_all_user_methods now uid db)) =
     map payment_method_id (saved_methods db)"
  by (simp add: deactivate_all_user_methods_def comp_def)

lemma find_active_method:
  "find (\<lambda>m. m_id m = mid) (get_active_saved_methods db uid) = None \<longleftrightarrow>
     \<not> (\<exists>m\<in>set (saved_methods db). m_id m = mid \<and> user_id m = uid \<and> is_active m)"
  by (auto simp: find_None_iff set_get_active_saved_methods)

section \<open>Eligibility: the lead time (C1)\<close>

text \<open>
  For a lead time that is unset, or set and not zero, the selector does what C1 says: when
  it returns, a subscription of the table that is active, has autopay switched on and
  expires at \<open>E\<close> is among the selected ones exactly when \<open>now \<ge> E - D\<close> days, with 3
  for \<open>D\<close> when the lead time is unset.
\<close>

lemma selector_lead_time_nonzero:
  assumes "get_subscriptions_for_recurring fault db now = Inr selected"
    and "sub \<in> set (subscriptions db)"
    and "status sub = ''active''" and "autopay_enabled sub" and "expires_at sub = Some E"
    and "autopay_days_before sub \<noteq> Some 0"
  shows "sub \<in> set selected \<longleftrightarrow>
           now \<ge> E - 86400 * (case autopay_days_before sub of None \<Rightarrow> 3 | Some D \<Rightarrow> D)"
proof -
  have "sub \<in> set (select_autopay_subscriptions db)"
    using assms(2-5) by (simp add: select_autopay_subscriptions_def SubscriptionStatus_ACTIVE_def)
  moreover have "filter_eligible now (select_autopay_subscriptions db) = Inr selected"
    using assms(1)
    by (auto simp: get_subscriptions_for_recurring_def session_execute_def
        split: option.splits sum.splits)
  moreover have "py_or (autopay_days_before sub) 3 =
      (case autopay_days_before sub of None \<Rightarrow> 3 | Some D \<Rightarrow> D)"
    using assms(6) by (cases "autopay_days_before sub") auto
  ultimately show ?thesis
    using assms(5) filter_eligible_mem [of now "select_autopay_subscriptions db" selected sub]
    by simp
qed

text \<open>
  A lead time so large that the threshold would lie before year 1 makes the subtraction
  raise: the selector returns nothing, and the pass ends with the error in its log.
\<close>

lemma selector_overflow_aborts_pass:
  "get_subscriptions_for_recurring (\<lambda>q. None)
     (shop\<lparr>subscriptions := [subscription_of 4 dave (Some 800000)]\<rparr>) 913600
     = Inl OverflowError \<and>
   process_recurring_charges gateway_ok 913600
     (shop\<lparr>subscriptions := [subscription_of 4 dave (Some 800000)]\<rparr>) [] =
     (\<lparr>checked = 0, charged = 0, no_method = 0, failed = 0, skipped = 0\<rparr>,
      shop\<lparr>subscriptions := [subscription_of 4 dave (Some 800000)]\<rparr>,
      [Log (PassError OverflowError)])"
  by (simp add: example_defs scheduler_defs)

text \<open>
  C1 says that an active subscription with autopay, expiry \<open>E\<close> and lead time \<open>D\<close> days is
  selected exactly when \<open>now \<ge> E - D\<close>. The code departs from this at \<open>D = 0\<close>, where
  \<^verbatim>\<open>sub.autopay_days_before or 3\<close> takes the 0 for unset and uses 3. Dave's subscription
  expires at second \<open>1000000\<close> with a lead time of 0. One day before, at second \<open>913600\<close>,
  neither \<open>now \<ge> E - D\<close> nor the condition of the docstring of
  \<^verbatim>\<open>process_recurring_charges\<close>, \<open>expires_at \<le> now + autopay_days_before\<close>, holds, and the
  selector selects it all the same. It does so from second \<open>1000000 - 3 * 86400 = 740800\<close>
  on, and not one second earlier.
\<close>

theorem selector_zero_lead_time_selected_early:
  "autopay_days_before (subscription_of 4 dave (Some 0)) = Some 0 \<and>
   expires_at (subscription_of 4 dave (Some 0)) = Some 1000000 \<and>
   \<not> (913600 \<ge> 1000000 - 86400 * (0::int)) \<and>
   \<not> (1000000 \<le> 913600 + 86400 * (0::int)) \<and>
   get_subscriptions_for_recurring (\<lambda>q. None)
     (shop\<lparr>subscriptions := [subscription_of 4 dave (Some 0)]\<rparr>) 913600
     = Inr [subscription_of 4 dave (Some 0)] \<and>
   get_subscriptions_for_recurring (\<lambda>q. None)
     (shop\<lparr>subscriptions := [subscription_of 4 dave (Some 0)]\<rparr>) 740800
     = Inr [subscription_of 4 dave (Some 0)] \<and>
   get_subscriptions_for_recurring (\<lambda>q. None)
     (shop\<lparr>subscriptions := [subscription_of 4 dave (Some 0)]\<rparr>) 740799
     = Inr []"
  by (simp add: example_defs scheduler_defs)

section \<open>A charge executor that raises (C2)\<close>

text \<open>
  What the loop does when the charge executor raises for a subscription (its user resolves,
  the user has an active instrument \<open>m\<close> first in the resolver's answer, the price \<open>a\<close> is
  positive): the exception leaves \<^verbatim>\<open>_process_single_recurring\<close> right after the call, the
  loop counts the subscription as failed and leaves the other counters, logs the exception
  with the subscription's id, and goes on with the rest of the subscriptions.
\<close>

lemma executor_exception_loop_step:
  assumes "s_user sub = Some usr"
    and "db_fault env (SelectActiveMethods (u_id usr)) = None"
    and "get_active_saved_methods db (u_id usr) = m # ms"
    and "calculate_renewal_cost env sub tr = (Some a, tr1)" and "0 < a"
    and "create_recurring_charge env db (recurring_request env sub usr m a) = (Inl e, db')"
  shows "process_single_recurring env db sub tr =
           (Inl e, db', tr1 @ [Charge (recurring_request env sub usr m a)]) \<and>
         charge_loop env (sub # rest) st db tr =
           charge_loop env rest (st\<lparr>failed := failed st + 1\<rparr>) db'
             (tr1 @ [Charge (recurring_request env sub usr m a),
                     Log (SubscriptionError (s_id sub) e)])"
  using assms by (simp add: process_single_recurring_def session_execute_def)

text \<open>
  C2 says that a raising charge executor gives the outcome failed, exactly one failure
  notification, and a pass that goes on. The code counts the failure and goes on, and it
  sends no notification. A bot is set and alice has a chat; with a gateway that raises,
  the pass over her subscription counts one failed and sends nothing. With a gateway that
  returns no result, the same pass counts one failed and sends her the failure
  notification: only the path of the exception leaves it out.
\<close>

theorem executor_exception_sends_nothing:
  "has_bot gateway_down \<and> telegram_id alice = Some 7001 \<and>
   process_recurring_charges gateway_down 999999
       (shop\<lparr>subscriptions := [subscription_of 1 alice (Some 5)]\<rparr>) []
     = (\<lparr>checked = 1, charged = 0, no_method = 0, failed = 1, skipped = 0\<rparr>,
        shop\<lparr>subscriptions := [subscription_of 1 alice (Some 5)]\<rparr>,
        [Log (SubscriptionsFound 1),
         Charge (recurring_request gateway_down (subscription_of 1 alice (Some 5)) alice
                   (card 2 7 ''pm-new'' True 200) 19900),
         Log (SubscriptionError 1 (OtherError ''gateway'')),
         Log (PassResults \<lparr>checked = 1, charged = 0, no_method = 0, failed = 1, skipped = 0\<rparr>)]) \<and>
   sent (snd (snd (process_recurring_charges gateway_down 999999
                  (shop\<lparr>subscriptions := [subscription_of 1 alice (Some 5)]\<rparr>) []))) = [] \<and>
   fst (process_recurring_charges gateway_declined 999999
          (shop\<lparr>subscriptions := [subscription_of 1 alice (Some 5)]\<rparr>) [])
     = \<lparr>checked = 1, charged = 0, no_method = 0, failed = 1, skipped = 0\<rparr> \<and>
   sent (snd (snd (process_recurring_charges gateway_declined 999999
                  (shop\<lparr>subscriptions := [subscription_of 1 alice (Some 5)]\<rparr>) [])))
     = [(7001, RecurringFailure 19900)]"
  by (simp add: example_defs scheduler_defs)

section \<open>The counters of a pass (C3)\<close>

text \<open>
  C3. Whatever the collaborators do (which queries and which charges raise, what the
  executor answers), a pass whose selector returns \<open>N\<close> subscriptions returns statistics
  with \<open>checked = N\<close> and \<open>charged + no_method + failed + skipped = N\<close>.
\<close>

theorem pass_counters:
  assumes "get_subscriptions_for_recurring (db_fault env) db now = Inr subs"
  shows "checked (fst (process_recurring_charges env now db tr)) = length subs \<and>
         charged (fst (process_recurring_charges env now db tr))
           + no_method (fst (process_recurring_charges env now db tr))
           + failed (fst (process_recurring_charges env now db tr))
           + skipped (fst (process_recurring_charges env now db tr)) = length subs"
proof (cases "subs = []")
  case True
  with assms show ?thesis by (simp add: process_recurring_charges_def)
next
  case False
  let ?st1 = "\<lparr>checked = length subs, charged = 0, no_method = 0, failed = 0, skipped = 0\<rparr>"
  obtain st2 d2 t2 where loop:
    "charge_loop env subs ?st1 db (tr @ [Log (SubscriptionsFound (length subs))]) = (st2, d2, t2)"
    by (cases "charge_loop env subs ?st1 db (tr @ [Log (SubscriptionsFound (length subs))])") auto
  from charge_loop_counters [OF loop]
  have "checked st2 = length subs \<and> outcomes st2 = length subs"
    by (simp add: outcomes_def)
  moreover from assms False loop
  have "fst (process_recurring_charges env now db tr) = st2"
    by (simp add: process_recurring_charges_def)
  ultimately show ?thesis by (simp add: outcomes_def)
qed

text \<open>
  With a gateway that raises on every charge, the pass over the four subscriptions counts
  four: two failed (alice, carol) and two without a method (bob, dave).
\<close>

theorem pass_counters_witness:
  "get_subscriptions_for_recurring (db_fault gateway_down) shop 999999 = Inr (subscriptions shop) \<and>
   checked (fst (process_recurring_charges gateway_down 999999 shop [])) = 4 \<and>
   charged (fst (process_recurring_charges gateway_down 999999 shop []))
     + no_method (fst (process_recurring_charges gateway_down 999999 shop []))
     + failed (fst (process_recurring_charges gateway_down 999999 shop []))
     + skipped (fst (process_recurring_charges gateway_down 999999 shop [])) = 4 \<and>
   failed (fst (process_recurring_charges gateway_down 999999 shop [])) = 2"
proof -
  have h: "get_subscriptions_for_recurring (db_fault gateway_down) shop 999999
             = Inr (subscriptions shop)"
    by (simp add: example_defs scheduler_defs)
  have n: "length (subscriptions shop) = 4"
    by (simp add: example_defs)
  have f: "failed (fst (process_recurring_charges gateway_down 999999 shop [])) = 2"
    by (simp add: example_defs scheduler_defs)
  from pass_counters [OF h, of "[]"] h n f show ?thesis by simp
qed

section \<open>A charge that succeeds (C4)\<close>

text \<open>
  C4, as the code has it. When the charge executor returns a result whose status is
  \<^verbatim>\<open>succeeded\<close>, the outcome is \<^verbatim>\<open>charged\<close>, the loop adds one to \<open>charged\<close> and leaves the
  other counters, the executor was called once, and the success notification is sent once
  if a bot is set and the user has a chat (\<^verbatim>\<open>telegram_id\<close> set and not zero), and not at
  all otherwise.
\<close>

theorem succeeded_charge_counts_charged:
  assumes "s_user sub = Some usr"
    and "db_fault env (SelectActiveMethods (u_id usr)) = None"
    and "get_active_saved_methods db (u_id usr) = m # ms"
    and "calculate_renewal_cost env sub tr = (Some a, tr1)" and "0 < a"
    and "create_recurring_charge env db (recurring_request env sub usr m a) = (Inr (Some d), db')"
    and "map_of d ''status'' = Some ''succeeded''"
  shows "\<exists>tr'. process_single_recurring env db sub tr = (Inr ''charged'', db', tr') \<and>
           sent tr' = sent tr @ (if has_bot env \<and> truthy (telegram_id usr)
                                 then [(the (telegram_id usr), RecurringSuccess a)] else []) \<and>
           charges tr' = charges tr @ [recurring_request env sub usr m a] \<and>
           charge_loop env (sub # rest) st db tr =
             charge_loop env rest (st\<lparr>charged := charged st + 1\<rparr>) db' tr'"
proof -
  let ?req = "recurring_request env sub usr m a"
  let ?tr' = "notify_recurring_success env usr a
                (tr1 @ [Charge ?req, Log (ChargeSucceeded (u_id usr) (s_id sub) a)])"
  have ok: "charge_succeeded (Some d)"
    using assms(7) by (auto simp: charge_succeeded_def)
  have step: "process_single_recurring env db sub tr = (Inr ''charged'', db', ?tr')"
    using assms(1-6) ok by (simp add: process_single_recurring_def session_execute_def)
  have tr1: "sent tr1 = sent tr" "charges tr1 = charges tr"
    using calculate_renewal_cost_trace [OF assms(4)] by simp_all
  have "sent ?tr' = sent tr @ (if has_bot env \<and> truthy (telegram_id usr)
                                 then [(the (telegram_id usr), RecurringSuccess a)] else [])"
    using tr1 by (simp add: notify_recurring_success_def try_send_message_def sent_append
        split: option.splits)
  moreover have "charges ?tr' = charges tr @ [?req]"
    using tr1 by (simp add: notify_recurring_success_def try_send_message_def charges_append
        split: option.splits)
  moreover have "charge_loop env (sub # rest) st db tr =
             charge_loop env rest (st\<lparr>charged := charged st + 1\<rparr>) db' ?tr'"
    using step by (simp add: count_result_def)
  ultimately show ?thesis using step by blast
qed

text \<open>Alice has a chat: her renewal is charged to her newer card and she is told once.\<close>

theorem succeeded_charge_counts_charged_witness:
  "fst (process_single_recurring gateway_ok shop (subscription_of 1 alice (Some 5)) [])
     = Inr ''charged'' \<and>
   sent (snd (snd (process_single_recurring gateway_ok shop (subscription_of 1 alice (Some 5)) [])))
     = [(7001, RecurringSuccess 19900)] \<and>
   charges (snd (snd (process_single_recurring gateway_ok shop (subscription_of 1 alice (Some 5)) [])))
     = [recurring_request gateway_ok (subscription_of 1 alice (Some 5)) alice
          (card 2 7 ''pm-new'' True 200) 19900]"
proof -
  let ?sub = "subscription_of 1 alice (Some 5)"
  let ?m = "card 2 7 ''pm-new'' True 200"
  have h1: "s_user ?sub = Some alice"
    and h2: "db_fault gateway_ok (SelectActiveMethods (u_id alice)) = None"
    and h3: "get_active_saved_methods shop (u_id alice) = ?m # [card 1 7 ''pm-old'' True 100]"
    and h4: "calculate_renewal_cost gateway_ok ?sub [] = (Some 19900, [])"
    and h5: "(0::int) < 19900"
    and h6: "create_recurring_charge gateway_ok shop
               (recurring_request gateway_ok ?sub alice ?m 19900)
             = (Inr (Some [(''status'', ''succeeded'')]), shop)"
    and h7: "map_of [(''status'', ''succeeded'')] ''status'' = Some ''succeeded''"
    by (simp_all add: example_defs get_active_saved_methods_def calculate_renewal_cost_def)
  have chat: "has_bot gateway_ok" "telegram_id alice = Some 7001"
    by (simp_all add: example_defs)
  from succeeded_charge_counts_charged [OF h1 h2 h3 h4 h5 h6 h7, of "[]"
      "\<lparr>checked = 1, charged = 0, no_method = 0, failed = 0, skipped = 0\<rparr>"]
  obtain tr' where
    "process_single_recurring gateway_ok shop ?sub [] = (Inr ''charged'', shop, tr')"
    "sent tr' = sent [] @ (if has_bot gateway_ok \<and> truthy (telegram_id alice)
                           then [(the (telegram_id alice), RecurringSuccess 19900)] else [])"
    "charges tr' = charges [] @ [recurring_request gateway_ok ?sub alice ?m 19900]"
    by blast
  with chat show ?thesis by simp
qed

text \<open>
  C4 as stated fails for a user without a chat: carol's renewal is charged, and no
  notification is sent.
\<close>

theorem succeeded_charge_counterexample:
  "telegram_id carol = None \<and>
   fst (process_single_recurring gateway_ok shop (subscription_of 3 carol None) [])
     = Inr ''charged'' \<and>
   sent (snd (snd (process_single_recurring gateway_ok shop (subscription_of 3 carol None) [])))
     = []"
  by (simp add: example_defs scheduler_defs)

section \<open>A user without an active instrument (C5)\<close>

text \<open>
  C5, as the code has it. When the user of a subscription has no active saved method, the
  outcome is \<^verbatim>\<open>no_method\<close>, the loop adds one to \<open>no_method\<close>, the charge executor is not
  called, and the no-payment-method notification is sent once if a bot is set and the user
  has a chat, and not at all otherwise.
\<close>

theorem no_instrument_no_charge:
  assumes "s_user sub = Some usr"
    and "db_fault env (SelectActiveMethods (u_id usr)) = None"
    and "\<not> (\<exists>m\<in>set (saved_methods db). user_id m = u_id usr \<and> is_active m)"
  shows "\<exists>tr'. process_single_recurring env db sub tr = (Inr ''no_method'', db, tr') \<and>
           sent tr' = sent tr @ (if has_bot env \<and> truthy (telegram_id usr)
                                 then [(the (telegram_id usr), NoPaymentMethod)] else []) \<and>
           charges tr' = charges tr \<and>
           charge_loop env (sub # rest) st db tr =
             charge_loop env rest (st\<lparr>no_method := no_method st + 1\<rparr>) db tr'"
proof -
  let ?tr' = "notify_no_payment_method env usr (tr @ [Log (NoSavedMethods (u_id usr) (s_id sub))])"
  have none: "get_active_saved_methods db (u_id usr) = []"
    using assms(3) by (simp add: get_active_saved_methods_empty)
  have step: "process_single_recurring env db sub tr = (Inr ''no_method'', db, ?tr')"
    using assms(1,2) none by (simp add: process_single_recurring_def session_execute_def)
  have "sent ?tr' = sent tr @ (if has_bot env \<and> truthy (telegram_id usr)
                                 then [(the (telegram_id usr), NoPaymentMethod)] else [])"
    by (simp add: notify_no_payment_method_def try_send_message_def sent_append
        split: option.splits)
  moreover have "charges ?tr' = charges tr"
    by (simp add: notify_no_payment_method_def try_send_message_def charges_append
        split: option.splits)
  moreover have "charge_loop env (sub # rest) st db tr =
             charge_loop env rest (st\<lparr>no_method := no_method st + 1\<rparr>) db ?tr'"
    using step by (simp add: count_result_def)
  ultimately show ?thesis using step by blast
qed

text \<open>Dave has a chat and no card: he is told once and nothing is charged.\<close>

theorem no_instrument_no_charge_witness:
  "fst (process_single_recurring gateway_ok shop (subscription_of 4 dave (Some 0)) [])
     = Inr ''no_method'' \<and>
   sent (snd (snd (process_single_recurring gateway_ok shop (subscription_of 4 dave (Some 0)) [])))
     = [(7010, NoPaymentMethod)] \<and>
   charges (snd (snd (process_single_recurring gateway_ok shop (subscription_of 4 dave (Some 0)) [])))
     = []"
proof -
  let ?sub = "subscription_of 4 dave (Some 0)"
  have h1: "s_user ?sub = Some dave"
    and h2: "db_fault gateway_ok (SelectActiveMethods (u_id dave)) = None"
    and h3: "\<not> (\<exists>m\<in>set (saved_methods shop). user_id m = u_id dave \<and> is_active m)"
    by (simp_all add: example_defs)
  have chat: "has_bot gateway_ok" "telegram_id dave = Some 7010"
    by (simp_all add: example_defs)
  from no_instrument_no_charge [OF h1 h2 h3, of "[]" "[]"
      "\<lparr>checked = 1, charged = 0, no_method = 0, failed = 0, skipped = 0\<rparr>"]
  obtain tr' where
    "process_single_recurring gateway_ok shop ?sub [] = (Inr ''no_method'', shop, tr')"
    "sent tr' = sent [] @ (if has_bot gateway_ok \<and> truthy (telegram_id dave)
                           then [(the (telegram_id dave), NoPaymentMethod)] else [])"
    "charges tr' = charges []"
    by blast
  with chat show ?thesis by simp
qed

text \<open>
  C5 as stated fails for a user without a chat: bob's only card is switched off, the
  outcome is \<^verbatim>\<open>no_method\<close>, and no notification is sent.
\<close>

theorem no_instrument_counterexample:
  "telegram_id bob = None \<and>
   get_active_saved_methods shop (u_id bob) = [] \<and>
   fst (process_single_recurring gateway_ok shop (subscription_of 2 bob None) [])
     = Inr ''no_method'' \<and>
   sent (snd (snd (process_single_recurring gateway_ok shop (subscription_of 2 bob None) [])))
     = []"
  by (simp add: example_defs scheduler_defs)

section \<open>The newest instrument is the one charged (C6)\<close>

text \<open>
  C6. Let a user have an active instrument \<open>newest\<close> that was created strictly after each
  of the user's other active instruments (created at \<open>t2\<close>, the others at some
  \<open>t1 < t2\<close>). Then the resolver's answer is ordered newest first and begins with
  \<open>newest\<close>, and processing a subscription of the user passes \<open>newest\<close>, and no other
  instrument, to the charge executor: the executor is called once with it when the price
  is positive, and not called otherwise.
\<close>

theorem newest_instrument_is_charged:
  assumes "s_user sub = Some usr"
    and "db_fault env (SelectActiveMethods (u_id usr)) = None"
    and "newest \<in> set (saved_methods db)" and "user_id newest = u_id usr" and "is_active newest"
    and "\<forall>m\<in>set (saved_methods db).
           user_id m = u_id usr \<and> is_active m \<and> m \<noteq> newest \<longrightarrow> created_at m < created_at newest"
  shows "\<exists>older. get_active_saved_methods db (u_id usr) = newest # older \<and>
           sorted_wrt (\<lambda>a b. created_at a \<ge> created_at b) (newest # older) \<and>
           charges (snd (snd (process_single_recurring env db sub tr))) =
             charges tr @
               (case fst (calculate_renewal_cost env sub tr) of
                  None \<Rightarrow> []
                | Some a \<Rightarrow> if 0 < a then [recurring_request env sub usr newest a] else [])"
proof -
  obtain older where first: "get_active_saved_methods db (u_id usr) = newest # older"
    using newest_is_first [OF assms(3-6)] by blast
  have ordered: "sorted_wrt (\<lambda>a b. created_at a \<ge> created_at b) (newest # older)"
    using get_active_saved_methods_sorted [of db "u_id usr"] first by simp
  obtain amount tr1 where cost: "calculate_renewal_cost env sub tr = (amount, tr1)"
    by (cases "calculate_renewal_cost env sub tr") auto
  have tr1: "charges tr1 = charges tr"
    using calculate_renewal_cost_trace [OF cost] by simp
  have "charges (snd (snd (process_single_recurring env db sub tr))) =
          charges tr @
            (case amount of
               None \<Rightarrow> []
             | Some a \<Rightarrow> if 0 < a then [recurring_request env sub usr newest a] else [])"
  proof (cases "\<not> truthy amount \<or> the amount \<le> 0")
    case True
    then have "(case amount of None \<Rightarrow> []
                | Some a \<Rightarrow> if 0 < a then [recurring_request env sub usr newest a] else []) = []"
      by (cases amount) auto
    moreover have "process_single_recurring env db sub tr =
        (Inr ''skipped'', db, tr1 @ [Log (CostUnknown (s_id sub))])"
      using assms(1,2) first cost True
      by (simp add: process_single_recurring_def session_execute_def)
    ultimately show ?thesis using tr1 by (simp add: charges_append)
  next
    case False
    then obtain a where a: "amount = Some a" "0 < a"
      by (cases amount) auto
    let ?req = "recurring_request env sub usr newest a"
    obtain res db' where call: "create_recurring_charge env db ?req = (res, db')"
      by (cases "create_recurring_charge env db ?req") auto
    have "charges (snd (snd (process_single_recurring env db sub tr))) = charges tr @ [?req]"
      using assms(1,2) first cost a call tr1
      by (cases res)
        (simp_all add: process_single_recurring_def session_execute_def charges_append Let_def
          notify_recurring_success_def notify_recurring_failure_def try_send_message_def
          split: option.splits)
    with a show ?thesis by simp
  qed
  with first ordered cost show ?thesis by simp
qed

text \<open>
  Alice's cards were created at seconds 100 and 200: the resolver puts the second first,
  and the charge names its id, 2.
\<close>

theorem newest_instrument_is_charged_witness:
  "get_active_saved_methods shop (u_id alice)
     = [card 2 7 ''pm-new'' True 200, card 1 7 ''pm-old'' True 100] \<and>
   map saved_method_id
     (charges (snd (snd (process_single_recurring gateway_ok shop
                           (subscription_of 1 alice (Some 5)) [])))) = [2]"
proof -
  let ?sub = "subscription_of 1 alice (Some 5)"
  let ?new = "card 2 7 ''pm-new'' True 200"
  have h1: "s_user ?sub = Some alice"
    and h2: "db_fault gateway_ok (SelectActiveMethods (u_id alice)) = None"
    and h3: "?new \<in> set (saved_methods shop)"
    and h4: "user_id ?new = u_id alice"
    and h5: "is_active ?new"
    and h6: "\<forall>m\<in>set (saved_methods shop).
               user_id m = u_id alice \<and> is_active m \<and> m \<noteq> ?new \<longrightarrow> created_at m < created_at ?new"
    by (simp_all add: example_defs)
  have cost: "fst (calculate_renewal_cost gateway_ok ?sub []) = Some 19900"
    by (simp add: example_defs calculate_renewal_cost_def)
  have resolver: "get_active_saved_methods shop (u_id alice)
                    = [?new, card 1 7 ''pm-old'' True 100]"
    by (simp add: example_defs get_active_saved_methods_def)
  from newest_instrument_is_charged [OF h1 h2 h3 h4 h5 h6, of "[]"] cost
  have "charges (snd (snd (process_single_recurring gateway_ok shop ?sub [])))
          = [recurring_request gateway_ok ?sub alice ?new 19900]"
    by auto
  with resolver show ?thesis
    by (simp add: recurring_request_def card_def)
qed

section \<open>No usable price (C7)\<close>

text \<open>
  C7. When the price calculator is asked for a subscription (its user resolves and has an
  active instrument) and returns no amount, or an amount that is not positive, the outcome
  is \<^verbatim>\<open>skipped\<close>, the loop adds one to \<open>skipped\<close>, the charge executor is not called and
  nothing is sent.
\<close>

theorem no_price_is_skipped:
  assumes "s_user sub = Some usr"
    and "db_fault env (SelectActiveMethods (u_id usr)) = None"
    and "\<exists>m\<in>set (saved_methods db). user_id m = u_id usr \<and> is_active m"
    and "calculate_renewal_cost env sub tr = (amount, tr1)"
    and "amount = None \<or> (\<exists>a. amount = Some a \<and> a \<le> 0)"
  shows "process_single_recurring env db sub tr =
           (Inr ''skipped'', db, tr1 @ [Log (CostUnknown (s_id sub))]) \<and>
         sent (tr1 @ [Log (CostUnknown (s_id sub))]) = sent tr \<and>
         charges (tr1 @ [Log (CostUnknown (s_id sub))]) = charges tr \<and>
         charge_loop env (sub # rest) st db tr =
           charge_loop env rest (st\<lparr>skipped := skipped st + 1\<rparr>) db
             (tr1 @ [Log (CostUnknown (s_id sub))])"
proof -
  obtain m ms where methods: "get_active_saved_methods db (u_id usr) = m # ms"
    using assms(3) get_active_saved_methods_empty [of db "u_id usr"]
    by (cases "get_active_saved_methods db (u_id usr)") auto
  have unusable: "\<not> truthy amount \<or> the amount \<le> 0"
    using assms(5) by auto
  have step: "process_single_recurring env db sub tr =
           (Inr ''skipped'', db, tr1 @ [Log (CostUnknown (s_id sub))])"
    using assms(1,2,4) methods unusable
    by (simp add: process_single_recurring_def session_execute_def)
  moreover have "sent tr1 = sent tr" "charges tr1 = charges tr"
    using calculate_renewal_cost_trace [OF assms(4)] by simp_all
  ultimately show ?thesis
    by (simp add: sent_append charges_append count_result_def)
qed

text \<open>
  Without a configured period price, alice's subscription is skipped; with a tariff priced
  at 0 it is skipped as well.
\<close>

theorem no_price_is_skipped_witness:
  "process_single_recurring price_unknown shop (subscription_of 1 alice (Some 5)) [] =
     (Inr ''skipped'', shop, [Log (CostUnknown 1)]) \<and>
   process_single_recurring (gateway_ok\<lparr>get_tariff_by_id := (\<lambda>t. Inr (Some (Some 0)))\<rparr>) shop
       ((subscription_of 1 alice (Some 5))\<lparr>tariff_id := Some 3\<rparr>) [] =
     (Inr ''skipped'', shop, [Log (CostUnknown 1)])"
proof -
  let ?sub = "subscription_of 1 alice (Some 5)"
  let ?sub' = "?sub\<lparr>tariff_id := Some 3\<rparr>"
  let ?free = "gateway_ok\<lparr>get_tariff_by_id := (\<lambda>t. Inr (Some (Some 0)))\<rparr>"
  have h1: "s_user ?sub = Some alice"
    and h2: "db_fault price_unknown (SelectActiveMethods (u_id alice)) = None"
    and h3: "\<exists>m\<in>set (saved_methods shop). user_id m = u_id alice \<and> is_active m"
    and h4: "calculate_renewal_cost price_unknown ?sub [] = (None, [])"
    and h5: "(None :: int option) = None \<or> (\<exists>a. (None :: int option) = Some a \<and> a \<le> 0)"
    by (simp_all add: example_defs calculate_renewal_cost_def)
  have g1: "s_user ?sub' = Some alice"
    and g2: "db_fault ?free (SelectActiveMethods (u_id alice)) = None"
    and g4: "calculate_renewal_cost ?free ?sub' [] = (Some 0, [])"
    and g5: "Some (0::int) = None \<or> (\<exists>a. Some (0::int) = Some a \<and> a \<le> 0)"
    by (simp_all add: example_defs calculate_renewal_cost_def)
  have id: "s_id ?sub = 1" "s_id ?sub' = 1"
    by (simp_all add: example_defs)
  from no_price_is_skipped [OF h1 h2 h3 h4 h5, of "[]"
      "\<lparr>checked = 1, charged = 0, no_method = 0, failed = 0, skipped = 0\<rparr>"]
    no_price_is_skipped [OF g1 g2 h3 g4 g5, of "[]"
      "\<lparr>checked = 1, charged = 0, no_method = 0, failed = 0, skipped = 0\<rparr>"] id
  show ?thesis by simp
qed

section \<open>A selector that raises (C8)\<close>

text \<open>
  C8. When the selector's query raises, the pass returns all the same: it writes the error
  to the log and returns the statistics, which are all zero, since the selector runs before
  any subscription is processed. The database is as before and nothing else is done.
\<close>

theorem selector_failure_is_logged:
  assumes "db_fault env SelectSubscriptions = Some e"
  shows "process_recurring_charges env now db tr =
           (\<lparr>checked = 0, charged = 0, no_method = 0, failed = 0, skipped = 0\<rparr>, db,
            tr @ [Log (PassError e)])"
  using assms
  by (simp add: process_recurring_charges_def get_subscriptions_for_recurring_def
      session_execute_def log_results_def)

theorem selector_failure_is_logged_witness:
  "db_fault database_down SelectSubscriptions = Some (OtherError ''connection'') \<and>
   process_recurring_charges database_down 999999 shop [] =
     (\<lparr>checked = 0, charged = 0, no_method = 0, failed = 0, skipped = 0\<rparr>, shop,
      [Log (PassError (OtherError ''connection''))])"
proof -
  have h: "db_fault database_down SelectSubscriptions = Some (OtherError ''connection'')"
    by (simp add: example_defs)
  from selector_failure_is_logged [OF h, of 999999 shop "[]"] h show ?thesis by simp
qed

section \<open>One record per gateway token (C9)\<close>

text \<open>
  C9. The token column is unique: in a table that holds each token at most once, creating a
  saved method, deactivating one and deactivating all of a user leave it so; and creating a
  saved method with a token that is stored already inserts nothing and returns the stored
  record of that token.
\<close>

theorem token_stays_unique:
  assumes "distinct (map payment_method_id (saved_methods db))"
  shows "distinct (map payment_method_id
            (saved_methods (snd (create_saved_payment_method now args db)))) \<and>
         distinct (map payment_method_id (saved_methods (deactivate_saved_method now mid db))) \<and>
         distinct (map payment_method_id (saved_methods (deactivate_all_user_methods now uid db))) \<and>
         (\<forall>existing\<in>set (saved_methods db).
            payment_method_id existing = payment_method_id args \<longrightarrow>
            create_saved_payment_method now args db = (Inr (Some existing), db))"
proof -
  let ?row = "args\<lparr>m_id := next_method_id db, is_active := True,
                      created_at := now, updated_at := now\<rparr>"
  have "distinct (map payment_method_id
            (saved_methods (snd (create_saved_payment_method now args db))))"
    using assms
    by (cases "violates_constraints db ?row")
      (auto simp: create_saved_payment_method_def violates_constraints_def Let_def
        split: option.splits)
  moreover have "create_saved_payment_method now args db = (Inr (Some existing), db)"
    if "existing \<in> set (saved_methods db)"
      and "payment_method_id existing = payment_method_id args" for existing
  proof -
    have "payment_method_id args \<in> set (map payment_method_id (saved_methods db))"
      using that by (metis imageI set_map)
    then have "violates_constraints db ?row"
      by (simp add: violates_constraints_def)
    moreover have "filter (\<lambda>m. payment_method_id m = payment_method_id args) (saved_methods db)
                     = [existing]"
      using filter_unique_key [OF assms that(1)] that(2) by simp
    ultimately show ?thesis
      by (simp add: create_saved_payment_method_def get_saved_method_by_payment_method_id_def)
  qed
  ultimately show ?thesis
    using assms
    by (simp add: deactivate_saved_method_tokens deactivate_all_user_methods_tokens)
qed

text \<open>
  In the shop, a second record for the token of alice's newer card is not written, and the
  stored one comes back; a new token is written once, under the next id.
\<close>

theorem token_stays_unique_witness:
  "distinct (map payment_method_id (saved_methods shop)) \<and>
   create_saved_payment_method 300 (card 0 8 ''pm-new'' False 0) shop
     = (Inr (Some (card 2 7 ''pm-new'' True 200)), shop) \<and>
   map payment_method_id
     (saved_methods (snd (create_saved_payment_method 300 (card 0 8 ''pm-fresh'' False 0) shop)))
     = [''pm-old'', ''pm-new'', ''pm-bob'', ''pm-carol'', ''pm-fresh''] \<and>
   distinct (map payment_method_id
     (saved_methods (snd (create_saved_payment_method 300 (card 0 8 ''pm-fresh'' False 0) shop))))"
proof -
  have h: "distinct (map payment_method_id (saved_methods shop))"
    by (simp add: example_defs)
  have stored: "card 2 7 ''pm-new'' True 200 \<in> set (saved_methods shop)"
    and same: "payment_method_id (card 2 7 ''pm-new'' True 200)
                 = payment_method_id (card 0 8 ''pm-new'' False 0)"
    by (simp_all add: example_defs)
  have fresh: "map payment_method_id
     (saved_methods (snd (create_saved_payment_method 300 (card 0 8 ''pm-fresh'' False 0) shop)))
     = [''pm-old'', ''pm-new'', ''pm-bob'', ''pm-carol'', ''pm-fresh'']"
    by (simp add: example_defs create_saved_payment_method_def violates_constraints_def Let_def)
  from token_stays_unique [OF h, of 300 "card 0 8 ''pm-new'' False 0" 0 0] stored same
  have "create_saved_payment_method 300 (card 0 8 ''pm-new'' False 0) shop
          = (Inr (Some (card 2 7 ''pm-new'' True 200)), shop)"
    by blast
  moreover from token_stays_unique [OF h, of 300 "card 0 8 ''pm-fresh'' False 0" 0 0]
  have "distinct (map payment_method_id
     (saved_methods (snd (create_saved_payment_method 300 (card 0 8 ''pm-fresh'' False 0) shop))))"
    by blast
  ultimately show ?thesis using h fresh by simp
qed

section \<open>Deleting a saved method over HTTP (C10)\<close>

text \<open>
  C10. The delete route deactivates the rows with the given id exactly when the requesting
  user has an active method with that id; for an id that is inactive, unknown or another
  user's it fails with 404 and the database is as before. Where the ids are unique (the
  primary key), the records of the other users are the same after the call, whatever its
  result.
\<close>

theorem delete_only_own_active_method:
  "delete_saved_payment_method now usr mid db =
     (if \<exists>m\<in>set (saved_methods db). m_id m = mid \<and> user_id m = u_id usr \<and> is_active m
      then (Inr \<lparr>success = True, message = ''Payment method successfully unlinked''\<rparr>,
            db\<lparr>saved_methods :=
                 map (\<lambda>m. if m_id m = mid then m\<lparr>is_active := False, updated_at := now\<rparr> else m)
                   (saved_methods db)\<rparr>)
      else (Inl (HTTPException 404 ''Saved payment method not found''), db)) \<and>
   (distinct (map m_id (saved_methods db)) \<longrightarrow>
      filter (\<lambda>m. user_id m \<noteq> u_id usr)
        (saved_methods (snd (delete_saved_payment_method now usr mid db)))
      = filter (\<lambda>m. user_id m \<noteq> u_id usr) (saved_methods db))"
proof (cases "find (\<lambda>m. m_id m = mid) (get_active_saved_methods db (u_id usr))")
  case None
  then show ?thesis
    using find_active_method [of mid db "u_id usr"]
    by (simp add: delete_saved_payment_method_def)
next
  case (Some found)
  let ?off = "\<lambda>m. if m_id m = mid then m\<lparr>is_active := False, updated_at := now\<rparr> else m"
  from Some obtain own where own: "own \<in> set (saved_methods db)" "m_id own = mid"
      "user_id own = u_id usr" "is_active own"
    using find_active_method [of mid db "u_id usr"] by auto
  have result: "delete_saved_payment_method now usr mid db =
      (Inr \<lparr>success = True, message = ''Payment method successfully unlinked''\<rparr>,
       db\<lparr>saved_methods := map ?off (saved_methods db)\<rparr>)"
    using Some by (simp add: delete_saved_payment_method_def deactivate_saved_method_def)
  have others: "filter (\<lambda>m. user_id m \<noteq> u_id usr) (map ?off (saved_methods db))
                  = filter (\<lambda>m. user_id m \<noteq> u_id usr) (saved_methods db)"
    if ids: "distinct (map m_id (saved_methods db))"
  proof (rule filter_map_unchanged)
    fix x assume "x \<in> set (saved_methods db)"
    show "(user_id (?off x) \<noteq> u_id usr) = (user_id x \<noteq> u_id usr)" by simp
  next
    fix x assume x: "x \<in> set (saved_methods db)" "user_id x \<noteq> u_id usr"
    have "m_id x \<noteq> mid"
    proof
      assume "m_id x = mid"
      with ids own(1,2) x(1) have "x = own"
        by (metis (no_types, lifting) distinct_map inj_on_def)
      with own(3) x(2) show False by simp
    qed
    then show "?off x = x" by simp
  qed
  from own have "\<exists>m\<in>set (saved_methods db). m_id m = mid \<and> user_id m = u_id usr \<and> is_active m"
    by blast
  with result others show ?thesis by simp
qed

text \<open>
  In the shop alice unlinks her card 2; her asking for carol's card 4, bob's asking for his
  switched-off card 3 and alice's asking for an unknown id 99 all end in 404 with the
  database untouched.
\<close>

theorem delete_only_own_active_method_witness:
  "delete_saved_payment_method 300 alice 2 shop =
     (Inr \<lparr>success = True, message = ''Payment method successfully unlinked''\<rparr>,
      shop\<lparr>saved_methods :=
             [card 1 7 ''pm-old'' True 100,
              (card 2 7 ''pm-new'' False 200)\<lparr>updated_at := 300\<rparr>,
              card 3 8 ''pm-bob'' False 150, card 4 9 ''pm-carol'' True 120]\<rparr>) \<and>
   delete_saved_payment_method 300 alice 4 shop =
     (Inl (HTTPException 404 ''Saved payment method not found''), shop) \<and>
   delete_saved_payment_method 300 bob 3 shop =
     (Inl (HTTPException 404 ''Saved payment method not found''), shop) \<and>
   delete_saved_payment_method 300 alice 99 shop =
     (Inl (HTTPException 404 ''Saved payment method not found''), shop) \<and>
   filter (\<lambda>m. user_id m \<noteq> u_id alice)
     (saved_methods (snd (delete_saved_payment_method 300 alice 2 shop)))
     = [card 3 8 ''pm-bob'' False 150, card 4 9 ''pm-carol'' True 120]"
proof -
  have ids: "distinct (map m_id (saved_methods shop))"
    by (simp add: example_defs)
  have others: "filter (\<lambda>m. user_id m \<noteq> u_id alice) (saved_methods shop)
                  = [card 3 8 ''pm-bob'' False 150, card 4 9 ''pm-carol'' True 120]"
    by (simp add: example_defs)
  from delete_only_own_active_method [of 300 alice 2 shop]
    delete_only_own_active_method [of 300 alice 4 shop]
    delete_only_own_active_method [of 300 bob 3 shop]
    delete_only_own_active_method [of 300 alice 99 shop] ids others
  show ?thesis
    by (simp add: example_defs)
qed

end
